theory Spec2Isabelle
  imports Main
begin

section \<open>Data model of media_downloader.py\<close>

text \<open>
  Names follow the source. Where a name is not available it is changed as little as
  possible: \<open>message.id\<close> is \<open>message_id\<close>, the variable \<open>_type\<close> is \<open>type'\<close>, the
  variable \<open>file_name\<close> is \<open>file_name'\<close> (the attribute of a media object keeps the
  name), and \<open>_can_download\<close>, \<open>_is_exist\<close>, \<open>_get_media_meta\<close> lose the leading
  underscore.

  Exceptions are values. The three handlers of \<open>download_media\<close> dispatch on the class
  of the exception: \<open>BadRequest\<close> (expired file reference), \<open>TypeError\<close> (treated as a
  timeout) and every other \<open>Exception\<close>.
\<close>

datatype exn = BadRequest | TypeError | AttributeError | KeyError | IndexError
  | ValueError | OtherException

text \<open>
  A media object (Audio, Document, Photo, Video, VideoNote, Voice). Only the attributes
  read by the code are kept. An attribute that is \<open>None\<close> or that the object does not
  have (\<open>getattr(media_obj, "file_name", None)\<close>) is \<open>None\<close>. \<open>date\<close> holds the result of
  \<open>date.isoformat()\<close>.
\<close>

record media_obj =
  mime_type :: "string option"
  file_name :: "string option"
  date :: "string option"

section \<open>String helpers of the Python library\<close>

text \<open>\<open>s.split(sep)\<close> for a one-character separator: never the empty list.\<close>

fun split :: "char \<Rightarrow> string \<Rightarrow> string list" where
  "split sep [] = [[]]"
| "split sep (c # cs) =
     (if c = sep then [] # split sep cs
      else (case split sep cs of
              [] \<Rightarrow> [[c]]
            | w # ws \<Rightarrow> (c # w) # ws))"

text \<open>
  \<open>os.path.join(a, *p)\<close> of posixpath: an absolute component discards what came
  before it; a separator is inserted unless the path so far is empty or ends with one.
\<close>

fun join_loop :: "string \<Rightarrow> string list \<Rightarrow> string" where
  "join_loop path [] = path"
| "join_loop path (b # p) =
     (if b \<noteq> [] \<and> hd b = CHR ''/'' then join_loop b p
      else if path = [] \<or> last path = CHR ''/'' then join_loop (path @ b) p
      else join_loop (path @ ''/'' @ b) p)"

definition os_path_join :: "string \<Rightarrow> string list \<Rightarrow> string" where
  "os_path_join a p = join_loop a p"

section \<open>The format gate and the media classifier\<close>

text \<open>
  \<open>_can_download(_type, file_formats, file_format)\<close>. \<open>file_formats[_type]\<close> raises
  KeyError on a missing key; \<open>allowed_formats[0]\<close> raises IndexError on an empty list and
  is evaluated only when the first operand of \<open>and\<close> holds.
\<close>

definition can_download :: "string \<Rightarrow> (string \<rightharpoonup> string list) \<Rightarrow> string option \<Rightarrow> exn + bool" where
  "can_download type' file_formats file_format =
     (if type' \<in> set [''audio'', ''document'', ''video''] then
        (case file_formats type' of
           None \<Rightarrow> Inl KeyError
         | Some allowed_formats \<Rightarrow>
             if (case file_format of None \<Rightarrow> True | Some f \<Rightarrow> f \<notin> set allowed_formats) then
               (case allowed_formats of
                  [] \<Rightarrow> Inl IndexError
                | a # _ \<Rightarrow> if a \<noteq> ''all'' then Inr False else Inr True)
             else Inr True)
      else Inr True)"

text \<open>
  The expression \<open>media_obj.mime_type.split("/")[-1]\<close>, which occurs twice in
  \<open>_get_media_meta\<close>: AttributeError when \<open>mime_type\<close> is \<open>None\<close>.
\<close>

definition mime_subtype :: "media_obj \<Rightarrow> exn + string" where
  "mime_subtype media_obj =
     (case mime_type media_obj of
        None \<Rightarrow> Inl AttributeError
      | Some m \<Rightarrow> Inr (last (split CHR ''/'' m)))"

text \<open>
  \<open>_get_media_meta(media_obj, _type)\<close> returns \<open>(file_name, file_format)\<close>.
  \<open>media_obj.date.isoformat()\<close> raises AttributeError when \<open>date\<close> is \<open>None\<close>.
  \<open>THIS_DIR\<close>, the directory of the script, is a parameter.
\<close>

definition get_media_meta :: "string \<Rightarrow> media_obj \<Rightarrow> string \<Rightarrow> exn + (string \<times> string option)" where
  "get_media_meta THIS_DIR media_obj type' =
     (case (if type' \<in> set [''audio'', ''document'', ''video'']
            then (case mime_subtype media_obj of Inl e \<Rightarrow> Inl e | Inr f \<Rightarrow> Inr (Some f))
            else Inr None) of
        Inl e \<Rightarrow> Inl e
      | Inr file_format \<Rightarrow>
          if type' \<in> set [''voice'', ''video_note''] then
            (case mime_subtype media_obj of
               Inl e \<Rightarrow> Inl e
             | Inr file_format' \<Rightarrow>
                 (case date media_obj of
                    None \<Rightarrow> Inl AttributeError
                  | Some isoformat \<Rightarrow>
                      Inr (os_path_join THIS_DIR
                             [type', type' @ ''_'' @ isoformat @ ''.'' @ file_format'],
                           Some file_format')))
          else
            Inr (os_path_join THIS_DIR
                   [type', (case file_name media_obj of None \<Rightarrow> [] | Some n \<Rightarrow> n)],
                 file_format))"

section \<open>Messages, configuration and the run state\<close>

text \<open>
  A message as the pipeline reads it: \<open>message.id\<close>, \<open>message.media\<close> (None when
  the message carries no media) and \<open>getattr(message, _type, None)\<close> for a media type
  name.
\<close>

record message =
  message_id :: int
  media :: "string option"
  getattr :: "string \<Rightarrow> media_obj option"

text \<open>The keys of the configuration dict that the pipeline reads or writes.\<close>

record config =
  last_read_message_id :: int
  ids_to_retry :: "int list"
  media_types :: "string list"
  file_formats :: "string \<rightharpoonup> string list"

text \<open>
  The calls that leave the process, in the order they are made, each with what it
  returned. \<open>Attempt\<close> and \<open>ProcessMessages\<close> are markers, not calls: the first is
  written on entry to the \<open>try\<close> body of \<open>download_media\<close> with the message id and the
  loop index \<open>retry\<close>, the second on entry to \<open>process_messages\<close> with the ids of its
  batch. \<open>WriteConfig\<close> carries the values of \<open>last_read_message_id\<close> and
  \<open>ids_to_retry\<close> in the configuration written to the file. Log lines are left out.
\<close>

datatype event =
    Attempt int nat
  | GetNextName string "exn + string"
  | Download int string "exn + string option"
  | ManageDuplicate "string option" "exn + string option"
  | GetMessages "int list"
  | Sleep nat
  | ProcessMessages "int list"
  | WriteConfig int "int list"

text \<open>The two module-level lists and the trace of events so far.\<close>

record world =
  FAILED_IDS :: "int list"
  DOWNLOADED_IDS :: "int list"
  trace :: "event list"

definition log :: "event \<Rightarrow> world \<Rightarrow> world" where
  "log e w = w\<lparr>trace := trace w @ [e]\<rparr>"

text \<open>
  What the code consumes from outside, as parameters. Every answer may depend on the
  events so far, so a theorem for all environments covers every sequence of results.
  \<^item> \<open>os_path_isdir\<close>, \<open>os_path_exists\<close>: the file system.
  \<^item> \<open>get_next_name\<close>, \<open>manage_duplicate_file\<close>: the functions imported from
    \<open>utils.file_management\<close>, whose code is not part of the sources at hand; they may
    raise.
  \<^item> \<open>client_download_media\<close>: \<open>client.download_media(message, file_name=...)\<close>,
    returning a path or None, or raising.
  \<^item> \<open>client_get_messages\<close>: \<open>client.get_messages\<close> for one id; assumed to answer.
  \<^item> \<open>client_get_chat_history\<close>: the messages that
    \<open>client.get_chat_history(chat_id, offset_id=..., reverse=True)\<close> yields, a finite
    sequence, given the offset.
\<close>

record env =
  THIS_DIR :: string
  os_path_isdir :: "event list \<Rightarrow> string \<Rightarrow> bool"
  os_path_exists :: "event list \<Rightarrow> string \<Rightarrow> bool"
  get_next_name :: "event list \<Rightarrow> string \<Rightarrow> exn + string"
  manage_duplicate_file :: "event list \<Rightarrow> string option \<Rightarrow> exn + string option"
  client_download_media :: "event list \<Rightarrow> message \<Rightarrow> string \<Rightarrow> exn + string option"
  client_get_messages :: "event list \<Rightarrow> int \<Rightarrow> message"
  client_get_chat_history :: "int \<Rightarrow> message list"

section \<open>Persisting the configuration\<close>

text \<open>
  \<open>update_config(config)\<close>. \<open>list(set(a) - set(b))\<close> holds each element of the
  difference once, in an order Python does not specify; the model keeps the order of first
  occurrence, so only membership in the result is meaningful. The write of the YAML file
  is the event \<open>WriteConfig\<close>; which file is written is not recorded (the call in
  \<open>begin_import\<close> uses the default name \<open>config.yaml\<close>, the call in \<open>main\<close> the name of
  the run's configuration).
\<close>

definition update_config :: "config \<Rightarrow> world \<Rightarrow> config \<times> world" where
  "update_config config w =
     (let config' = config\<lparr>ids_to_retry :=
            remdups (filter (\<lambda>i. i \<notin> set (DOWNLOADED_IDS w)) (ids_to_retry config))
            @ FAILED_IDS w\<rparr>
      in (config', log (WriteConfig (last_read_message_id config') (ids_to_retry config')) w))"

section \<open>Downloading one message\<close>

text \<open>\<open>_is_exist(file_path)\<close>.\<close>

definition is_exist :: "env \<Rightarrow> event list \<Rightarrow> string \<Rightarrow> bool" where
  "is_exist env h file_path = (\<not> os_path_isdir env h file_path \<and> os_path_exists env h file_path)"

text \<open>
  The block guarded by \<open>if _can_download(...)\<close> in \<open>download_media\<close>: the download of
  one media object to \<open>file_name\<close>. The result is the exception that left the block, if
  any, and the world at that point.
\<close>

definition download_item :: "env \<Rightarrow> message \<Rightarrow> string \<Rightarrow> world \<Rightarrow> exn option \<times> world" where
  "download_item env message file_name' w =
     (if is_exist env (trace w) file_name' then
        (let n = get_next_name env (trace w) file_name';
             w1 = log (GetNextName file_name' n) w
         in case n of
              Inl e \<Rightarrow> (Some e, w1)
            | Inr file_name'' \<Rightarrow>
                (let r = client_download_media env (trace w1) message file_name'';
                     w2 = log (Download (message_id message) file_name'' r) w1
                 in case r of
                      Inl e \<Rightarrow> (Some e, w2)
                    | Inr download_path \<Rightarrow>
                        (let d = manage_duplicate_file env (trace w2) download_path;
                             w3 = log (ManageDuplicate download_path d) w2
                         in case d of
                              Inl e \<Rightarrow> (Some e, w3)
                            | Inr download_path' \<Rightarrow>
                                (None, w3\<lparr>DOWNLOADED_IDS :=
                                   DOWNLOADED_IDS w3 @ [message_id message]\<rparr>))))
      else
        (let r = client_download_media env (trace w) message file_name';
             w1 = log (Download (message_id message) file_name' r) w
         in case r of
              Inl e \<Rightarrow> (Some e, w1)
            | Inr download_path \<Rightarrow>
                (None, w1\<lparr>DOWNLOADED_IDS := DOWNLOADED_IDS w1 @ [message_id message]\<rparr>)))"

text \<open>The loop \<open>for _type in media_types\<close> inside the \<open>try\<close>.\<close>

fun for_media_types ::
  "env \<Rightarrow> message \<Rightarrow> string list \<Rightarrow> (string \<rightharpoonup> string list) \<Rightarrow> world \<Rightarrow> exn option \<times> world" where
  "for_media_types env message [] ffs w = (None, w)"
| "for_media_types env message (type' # rest) ffs w =
     (case getattr message type' of
        None \<Rightarrow> for_media_types env message rest ffs w
      | Some media' \<Rightarrow>
          (case get_media_meta (THIS_DIR env) media' type' of
             Inl e \<Rightarrow> (Some e, w)
           | Inr (file_name', file_format) \<Rightarrow>
               (case can_download type' ffs file_format of
                  Inl e \<Rightarrow> (Some e, w)
                | Inr False \<Rightarrow> for_media_types env message rest ffs w
                | Inr True \<Rightarrow>
                    (case download_item env message file_name' w of
                       (Some e, w') \<Rightarrow> (Some e, w')
                     | (None, w') \<Rightarrow> for_media_types env message rest ffs w'))))"

text \<open>
  The loop \<open>for retry in range(3)\<close> with its three handlers, over the remaining values
  of \<open>retry\<close>. The result is the returned \<open>message.id\<close> and the world.
\<close>

fun retry_loop ::
  "env \<Rightarrow> nat list \<Rightarrow> message \<Rightarrow> string list \<Rightarrow> (string \<rightharpoonup> string list) \<Rightarrow> world \<Rightarrow> int \<times> world" where
  "retry_loop env [] message mts ffs w = (message_id message, w)"
| "retry_loop env (retry # rest) message mts ffs w =
     (let w0 = log (Attempt (message_id message) retry) w in
      if media message = None then (message_id message, w0)
      else
        (case for_media_types env message mts ffs w0 of
           (None, w1) \<Rightarrow> (message_id message, w1)
         | (Some e, w1) \<Rightarrow>
             if e = BadRequest then
               (let message' = client_get_messages env (trace w1) (message_id message);
                    w2 = log (GetMessages [message_id message]) w1;
                    w3 = (if retry = 2
                          then w2\<lparr>FAILED_IDS := FAILED_IDS w2 @ [message_id message']\<rparr>
                          else w2)
                in retry_loop env rest message' mts ffs w3)
             else if e = TypeError then
               (let w2 = log (Sleep 5) w1;
                    w3 = (if retry = 2
                          then w2\<lparr>FAILED_IDS := FAILED_IDS w2 @ [message_id message]\<rparr>
                          else w2)
                in retry_loop env rest message mts ffs w3)
             else (message_id message, w1\<lparr>FAILED_IDS := FAILED_IDS w1 @ [message_id message]\<rparr>)))"

definition download_media ::
  "env \<Rightarrow> message \<Rightarrow> string list \<Rightarrow> (string \<rightharpoonup> string list) \<Rightarrow> world \<Rightarrow> int \<times> world" where
  "download_media env message mts ffs w = retry_loop env [0, 1, 2] message mts ffs w"

section \<open>Batches and pagination\<close>

text \<open>
  \<open>asyncio.gather\<close> over the batch, run here one message after the other in list
  order. The returned ids are in the order of the messages whatever the interleaving;
  the interleaving at the awaits changes the order in which different messages append to
  the two lists and to the trace, which no property below depends on.
\<close>

fun gather ::
  "env \<Rightarrow> message list \<Rightarrow> string list \<Rightarrow> (string \<rightharpoonup> string list) \<Rightarrow> world \<Rightarrow> int list \<times> world" where
  "gather env [] mts ffs w = ([], w)"
| "gather env (message # messages) mts ffs w =
     (case download_media env message mts ffs w of
        (i, w') \<Rightarrow> (case gather env messages mts ffs w' of (is, w'') \<Rightarrow> (i # is, w'')))"

text \<open>\<open>max(message_ids)\<close>: ValueError on the empty list.\<close>

definition py_max :: "int list \<Rightarrow> exn + int" where
  "py_max xs = (case xs of [] \<Rightarrow> Inl ValueError | x # rest \<Rightarrow> Inr (fold max rest x))"

definition process_messages ::
  "env \<Rightarrow> message list \<Rightarrow> string list \<Rightarrow> (string \<rightharpoonup> string list) \<Rightarrow> world \<Rightarrow> (exn + int) \<times> world" where
  "process_messages env messages mts ffs w =
     (case gather env messages mts ffs (log (ProcessMessages (map message_id messages)) w) of
        (message_ids, w') \<Rightarrow> (py_max message_ids, w'))"

text \<open>
  The loop \<open>async for message in messages_iter\<close> of \<open>begin_import\<close>, over the messages
  still to come. Its variables are \<open>messages_list\<close>, \<open>pagination_count\<close>,
  \<open>last_read_message_id\<close> and \<open>config\<close>. An exception of \<open>process_messages\<close> leaves
  \<open>begin_import\<close>.
\<close>

fun history_loop ::
  "env \<Rightarrow> int \<Rightarrow> message list \<Rightarrow> message list \<Rightarrow> int \<Rightarrow> int \<Rightarrow> config \<Rightarrow> world
     \<Rightarrow> exn + (message list \<times> int \<times> config \<times> world)" where
  "history_loop env pagination_limit [] messages_list pagination_count last_read config w =
     Inr (messages_list, last_read, config, w)"
| "history_loop env pagination_limit (message # rest) messages_list pagination_count last_read
     config w =
     (if pagination_count \<noteq> pagination_limit then
        history_loop env pagination_limit rest (messages_list @ [message])
          (pagination_count + 1) last_read config w
      else
        (case process_messages env messages_list (media_types config) (file_formats config) w of
           (Inl e, w') \<Rightarrow> Inl e
         | (Inr last_read', w') \<Rightarrow>
             (case update_config (config\<lparr>last_read_message_id := last_read'\<rparr>) w' of
                (config', w'') \<Rightarrow>
                  history_loop env pagination_limit rest [message] 0 last_read' config' w'')))"

definition begin_import :: "env \<Rightarrow> config \<Rightarrow> int \<Rightarrow> world \<Rightarrow> exn + (config \<times> world)" where
  "begin_import env config pagination_limit w =
     (let last_read = last_read_message_id config;
          messages_iter = client_get_chat_history env last_read;
          skipped_messages =
            (if ids_to_retry config \<noteq> []
             then map (client_get_messages env (trace w)) (ids_to_retry config) else []);
          w0 = (if ids_to_retry config \<noteq> [] then log (GetMessages (ids_to_retry config)) w else w)
      in case history_loop env pagination_limit messages_iter skipped_messages
                (int (length skipped_messages)) last_read config w0 of
           Inl e \<Rightarrow> Inl e
         | Inr (messages_list, last_read', config', w') \<Rightarrow>
             if messages_list \<noteq> [] then
               (case process_messages env messages_list (media_types config')
                       (file_formats config') w' of
                  (Inl e, w'') \<Rightarrow> Inl e
                | (Inr last_read'', w'') \<Rightarrow>
                    Inr (config'\<lparr>last_read_message_id := last_read''\<rparr>, w''))
             else Inr (config'\<lparr>last_read_message_id := last_read'\<rparr>, w'))"

text \<open>\<open>main\<close>: one run with batches of 100, then the final \<open>update_config\<close>.\<close>

definition main :: "env \<Rightarrow> config \<Rightarrow> world \<Rightarrow> exn + (config \<times> world)" where
  "main env config w =
     (case begin_import env config 100 w of
        Inl e \<Rightarrow> Inl e
      | Inr (updated_config, w') \<Rightarrow> Inr (update_config updated_config w'))"

section \<open>Reading a trace\<close>

text \<open>
  Counters and tests on event lists, used to state the properties: the number of passes
  through the \<open>try\<close> body, the number of calls of the download primitive, and the
  calls (of the download primitive, \<open>get_next_name\<close> or \<open>manage_duplicate_file\<close>) that
  raised an exception that is neither \<open>BadRequest\<close> nor \<open>TypeError\<close>, called fatal.
\<close>

fun is_attempt :: "event \<Rightarrow> bool" where
  "is_attempt (Attempt i r) = True"
| "is_attempt e = False"

fun is_download :: "event \<Rightarrow> bool" where
  "is_download (Download i f r) = True"
| "is_download e = False"

fun fatal :: "event \<Rightarrow> bool" where
  "fatal (Download i f (Inl e)) = (e \<noteq> BadRequest \<and> e \<noteq> TypeError)"
| "fatal (GetNextName f (Inl e)) = (e \<noteq> BadRequest \<and> e \<noteq> TypeError)"
| "fatal (ManageDuplicate p (Inl e)) = (e \<noteq> BadRequest \<and> e \<noteq> TypeError)"
| "fatal e = False"

fun is_pagination :: "event \<Rightarrow> bool" where
  "is_pagination (ProcessMessages ids) = True"
| "is_pagination (WriteConfig l r) = True"
| "is_pagination e = False"

definition attempts :: "event list \<Rightarrow> nat" where
  "attempts evs = length (filter is_attempt evs)"

definition downloads :: "event list \<Rightarrow> nat" where
  "downloads evs = length (filter is_download evs)"

definition unclassified :: "exn option \<Rightarrow> bool" where
  "unclassified r = (\<exists>x. r = Some x \<and> x \<noteq> BadRequest \<and> x \<noteq> TypeError)"

text \<open>
  What one pass of the \<open>try\<close> body adds to the trace: no attempt marker, at most \<open>n\<close>
  downloads, and a fatal event only as the last event, in which case an unclassified
  exception leaves the body.
\<close>

definition body_events :: "exn option \<Rightarrow> nat \<Rightarrow> event list \<Rightarrow> bool" where
  "body_events r n evs =
     (attempts evs = 0 \<and> downloads evs \<le> n
      \<and> (\<forall>e \<in> set (butlast evs). \<not> fatal e)
      \<and> (evs \<noteq> [] \<and> fatal (last evs) \<longrightarrow> unclassified r))"

text \<open>The same for the retry loop, with bounds \<open>a\<close> on the attempts and \<open>d\<close> on the downloads.\<close>

definition loop_events :: "bool \<Rightarrow> nat \<Rightarrow> nat \<Rightarrow> event list \<Rightarrow> bool" where
  "loop_events failed a d evs =
     (attempts evs \<le> a \<and> downloads evs \<le> d
      \<and> (\<forall>e \<in> set (butlast evs). \<not> fatal e)
      \<and> (evs \<noteq> [] \<and> fatal (last evs) \<longrightarrow> failed))"

text \<open>Projections of the outcome of a run.\<close>

definition pagination_trace :: "exn + config \<times> world \<Rightarrow> exn + event list" where
  "pagination_trace r = map_sum id (\<lambda>(c, w). filter is_pagination (trace w)) r"


definition final_lists :: "exn + config \<times> world \<Rightarrow> exn + int list \<times> int list \<times> int list" where
  "final_lists r = map_sum id (\<lambda>(c, w). (DOWNLOADED_IDS w, FAILED_IDS w, ids_to_retry c)) r"

text \<open>
  A further call of \<open>main\<close> in the same process, as in the loop over configurations at
  the end of the script: it starts from the world the previous call left.
\<close>

definition then_main :: "exn + config \<times> world \<Rightarrow> env \<Rightarrow> config \<Rightarrow> exn + config \<times> world" where
  "then_main r env config = (case r of Inl e \<Rightarrow> Inl e | Inr (c, w) \<Rightarrow> main env config w)"

section \<open>Concrete inputs\<close>

text \<open>A message without media, and a message that carries a photo.\<close>

definition plain_message :: "int \<Rightarrow> message" where
  "plain_message i = \<lparr>message_id = i, media = None, getattr = (\<lambda>t. None)\<rparr>"

definition photo_message :: "int \<Rightarrow> message" where
  "photo_message i = \<lparr>message_id = i, media = Some ''photo'',
     getattr = (\<lambda>t. if t = ''photo''
                     then Some \<lparr>mime_type = None, file_name = None, date = None\<rparr> else None)\<rparr>"

text \<open>
  An environment with an empty download directory in which every download succeeds;
  \<open>history\<close> is the chat history and a message fetched by id has no media.
\<close>

definition quiet_env :: "message list \<Rightarrow> env" where
  "quiet_env history = \<lparr>THIS_DIR = ''/app'',
     os_path_isdir = (\<lambda>h p. False), os_path_exists = (\<lambda>h p. False),
     get_next_name = (\<lambda>h p. Inr (p @ ''-copy1'')),
     manage_duplicate_file = (\<lambda>h p. Inr p),
     client_download_media = (\<lambda>h m p. Inr (Some p)),
     client_get_messages = (\<lambda>h i. plain_message i),
     client_get_chat_history = (\<lambda>offset. history)\<rparr>"

text \<open>Every download raises \<open>e\<close>; a message fetched by id carries a photo.\<close>

definition failing_env :: "exn \<Rightarrow> env" where
  "failing_env e = (quiet_env [])\<lparr>client_download_media := (\<lambda>h m p. Inl e),
      client_get_messages := (\<lambda>h i. photo_message i)\<rparr>"

text \<open>The chat history is the photo message \<open>i\<close>, whose download raises an unclassified exception.\<close>

definition lost_photo_env :: "int \<Rightarrow> env" where
  "lost_photo_env i = (failing_env OtherException)
      \<lparr>client_get_chat_history := (\<lambda>offset. [photo_message i])\<rparr>"

text \<open>Every destination exists already, so each download goes to the next free name.\<close>

definition crowded_env :: env where
  "crowded_env = (quiet_env [])\<lparr>os_path_exists := (\<lambda>h p. True)\<rparr>"

text \<open>The first download succeeds, every later one raises an unclassified exception.\<close>

definition flaky_env :: env where
  "flaky_env = (quiet_env [])\<lparr>
      client_download_media :=
        (\<lambda>h m p. if downloads h = 0 then Inr (Some p) else Inl OtherException),
      client_get_messages := (\<lambda>h i. photo_message i)\<rparr>"

definition world0 :: world where
  "world0 = \<lparr>FAILED_IDS = [], DOWNLOADED_IDS = [], trace = []\<rparr>"

definition config0 :: "int \<Rightarrow> int list \<Rightarrow> config" where
  "config0 l r = \<lparr>last_read_message_id = l, ids_to_retry = r, media_types = [''photo''],
     file_formats = Map.empty\<rparr>"

section \<open>Properties\<close>

lemma split_not_Nil: "split sep s \<noteq> []"
  by (induction s) (auto split: list.splits)

text \<open>
  Claim C2. The format gate accepts an item exactly when its type is outside
  audio, document and video, or the type has an allowlist and the derived format occurs in
  it or the allowlist is the sentinel, which the code recognises by the first entry being
  "all". A type outside the three is accepted whatever the allowlists and the format are.
  A rejection happens only for one of the three types, on a non-empty allowlist whose
  first entry is not "all" and that lacks the format.
\<close>

theorem can_download_format_gate:
  "(can_download t ffs fmt = Inr True \<longleftrightarrow>
      (t \<notin> {''audio'', ''document'', ''video''} \<or>
       (\<exists>al. ffs t = Some al \<and>
          ((\<exists>f. fmt = Some f \<and> f \<in> set al) \<or> (\<exists>rest. al = ''all'' # rest)))))
   \<and> (t \<notin> {''audio'', ''document'', ''video''} \<longrightarrow> can_download t ffs fmt = Inr True)
   \<and> (can_download t ffs fmt = Inr False \<longleftrightarrow>
      (t \<in> {''audio'', ''document'', ''video''} \<and>
       (\<exists>a rest. ffs t = Some (a # rest) \<and> a \<noteq> ''all'' \<and>
          (\<forall>f. fmt = Some f \<longrightarrow> f \<notin> set (a # rest)))))"
  unfolding can_download_def
  by (cases "ffs t"; cases fmt; cases "the (ffs t)") (auto split: list.splits)

theorem can_download_format_gate_witness:
  "can_download ''audio'' [''audio'' \<mapsto> [''mp3'', ''flac'']] (Some ''flac'') = Inr True
   \<and> can_download ''video'' [''video'' \<mapsto> [''all'']] (Some ''mp4'') = Inr True
   \<and> can_download ''photo'' Map.empty None = Inr True
   \<and> can_download ''document'' [''document'' \<mapsto> [''pdf'']] (Some ''zip'') = Inr False"
  using can_download_format_gate [of "''audio''" "[''audio'' \<mapsto> [''mp3'', ''flac'']]" "Some ''flac''"]
    can_download_format_gate [of "''video''" "[''video'' \<mapsto> [''all'']]" "Some ''mp4''"]
    can_download_format_gate [of "''photo''" Map.empty None]
    can_download_format_gate [of "''document''" "[''document'' \<mapsto> [''pdf'']]" "Some ''zip''"]
  by simp

text \<open>
  Claim C10. For a type among audio, document and video the gate returns a verdict
  exactly when the allowlist map has a non-empty list for that type: a missing key raises
  KeyError and an empty allowlist raises IndexError, whatever the format is. Hence the gate
  is total (over all types and formats) exactly when each of the three types is mapped to
  a non-empty list.
\<close>

theorem can_download_total_iff:
  "(t \<in> {''audio'', ''document'', ''video''} \<longrightarrow>
      (can_download t ffs fmt = Inl KeyError \<longleftrightarrow> ffs t = None)
    \<and> (can_download t ffs fmt = Inl IndexError \<longleftrightarrow> ffs t = Some [])
    \<and> ((\<exists>b. can_download t ffs fmt = Inr b) \<longleftrightarrow> (\<exists>a rest. ffs t = Some (a # rest))))
   \<and> ((\<forall>t' fmt'. \<exists>b. can_download t' ffs fmt' = Inr b) \<longleftrightarrow>
      (\<forall>t' \<in> {''audio'', ''document'', ''video''}. \<exists>a rest. ffs t' = Some (a # rest)))"
proof -
  have one: "\<And>t fmt. t \<in> {''audio'', ''document'', ''video''} \<Longrightarrow>
      (can_download t ffs fmt = Inl KeyError \<longleftrightarrow> ffs t = None)
    \<and> (can_download t ffs fmt = Inl IndexError \<longleftrightarrow> ffs t = Some [])
    \<and> ((\<exists>b. can_download t ffs fmt = Inr b) \<longleftrightarrow> (\<exists>a rest. ffs t = Some (a # rest)))"
    unfolding can_download_def
    by (auto split: option.splits list.splits)
  have other: "\<And>t fmt. t \<notin> {''audio'', ''document'', ''video''} \<Longrightarrow>
      can_download t ffs fmt = Inr True"
    unfolding can_download_def by simp
  have "(\<forall>t' fmt'. \<exists>b. can_download t' ffs fmt' = Inr b) \<longleftrightarrow>
      (\<forall>t' \<in> {''audio'', ''document'', ''video''}. \<exists>a rest. ffs t' = Some (a # rest))"
  proof
    assume "\<forall>t' fmt'. \<exists>b. can_download t' ffs fmt' = Inr b"
    then show "\<forall>t' \<in> {''audio'', ''document'', ''video''}. \<exists>a rest. ffs t' = Some (a # rest)"
      using one by blast
  next
    assume r: "\<forall>t' \<in> {''audio'', ''document'', ''video''}. \<exists>a rest. ffs t' = Some (a # rest)"
    show "\<forall>t' fmt'. \<exists>b. can_download t' ffs fmt' = Inr b"
    proof (intro allI)
      fix t' fmt'
      show "\<exists>b. can_download t' ffs fmt' = Inr b"
      proof (cases "t' \<in> {''audio'', ''document'', ''video''}")
        case True
        with r one [of t' fmt'] show ?thesis by blast
      next
        case False
        with other [of t' fmt'] show ?thesis by blast
      qed
    qed
  qed
  with one [of t fmt] show ?thesis by blast
qed

theorem can_download_total_iff_witness:
  "can_download ''audio'' Map.empty (Some ''mp3'') = Inl KeyError
   \<and> can_download ''video'' [''video'' \<mapsto> []] (Some ''mp4'') = Inl IndexError
   \<and> (\<exists>b. can_download ''document'' [''document'' \<mapsto> [''pdf'']] (Some ''pdf'') = Inr b)
   \<and> (\<forall>t' fmt'. \<exists>b. can_download t'
          [''audio'' \<mapsto> [''all''], ''document'' \<mapsto> [''pdf''], ''video'' \<mapsto> [''mp4'']] fmt' = Inr b)"
  using can_download_total_iff [of "''audio''" Map.empty "Some ''mp3''"]
    can_download_total_iff [of "''video''" "[''video'' \<mapsto> []]" "Some ''mp4''"]
    can_download_total_iff [of "''document''" "[''document'' \<mapsto> [''pdf'']]" "Some ''pdf''"]
    can_download_total_iff [of "''audio''"
      "[''audio'' \<mapsto> [''all''], ''document'' \<mapsto> [''pdf''], ''video'' \<mapsto> [''mp4'']]" None]
  by simp

text \<open>
  Claim C9. For each of the types audio, document, video, voice and video_note a
  media object whose mime_type is None makes the media classifier raise AttributeError,
  so a result requires mime_type to be present; for audio, document and video presence is
  also enough. A photo never has its mime_type read: the result does not depend on it and
  its file_format is None.
\<close>

theorem get_media_meta_mime_type:
  "(t \<in> {''audio'', ''document'', ''video'', ''voice'', ''video_note''} \<longrightarrow>
      (mime_type m = None \<longrightarrow> get_media_meta d m t = Inl AttributeError)
    \<and> ((\<exists>r. get_media_meta d m t = Inr r) \<longrightarrow> mime_type m \<noteq> None))
   \<and> (t \<in> {''audio'', ''document'', ''video''} \<longrightarrow>
      ((\<exists>r. get_media_meta d m t = Inr r) \<longleftrightarrow> mime_type m \<noteq> None))
   \<and> get_media_meta d m ''photo'' =
       Inr (os_path_join d [''photo'', (case file_name m of None \<Rightarrow> [] | Some n \<Rightarrow> n)], None)
   \<and> get_media_meta d (m\<lparr>mime_type := x\<rparr>) ''photo'' = get_media_meta d m ''photo''"
  unfolding get_media_meta_def mime_subtype_def
  by (auto split: option.splits)

theorem get_media_meta_mime_type_witness:
  "get_media_meta ''/app'' \<lparr>mime_type = None, file_name = Some ''a.mp3'', date = None\<rparr> ''audio''
     = Inl AttributeError
   \<and> get_media_meta ''/app'' \<lparr>mime_type = None, file_name = None, date = Some ''2024-01-01''\<rparr> ''voice''
     = Inl AttributeError
   \<and> (\<exists>r. get_media_meta ''/app'' \<lparr>mime_type = Some ''video/mp4'', file_name = None, date = None\<rparr>
          ''video'' = Inr r)
   \<and> get_media_meta ''/app'' \<lparr>mime_type = None, file_name = None, date = None\<rparr> ''photo''
     = Inr (''/app/photo/'', None)"
proof -
  have a: "get_media_meta ''/app'' \<lparr>mime_type = None, file_name = Some ''a.mp3'', date = None\<rparr>
      ''audio'' = Inl AttributeError"
    using get_media_meta_mime_type [of "''audio''"
        "\<lparr>mime_type = None, file_name = Some ''a.mp3'', date = None\<rparr>" "''/app''" None]
    by simp
  have b: "get_media_meta ''/app'' \<lparr>mime_type = None, file_name = None, date = Some ''2024-01-01''\<rparr>
      ''voice'' = Inl AttributeError"
    using get_media_meta_mime_type [of "''voice''"
        "\<lparr>mime_type = None, file_name = None, date = Some ''2024-01-01''\<rparr>" "''/app''" None]
    by simp
  have c: "\<exists>r. get_media_meta ''/app''
      \<lparr>mime_type = Some ''video/mp4'', file_name = None, date = None\<rparr> ''video'' = Inr r"
    using get_media_meta_mime_type [of "''video''"
        "\<lparr>mime_type = Some ''video/mp4'', file_name = None, date = None\<rparr>" "''/app''" None]
    by simp
  have d: "get_media_meta ''/app'' \<lparr>mime_type = None, file_name = None, date = None\<rparr> ''photo''
      = Inr (''/app/photo/'', None)"
    using get_media_meta_mime_type [of "''photo''"
        "\<lparr>mime_type = None, file_name = None, date = None\<rparr>" "''/app''" None]
    by (simp add: os_path_join_def)
  from a b c d show ?thesis by blast
qed

section \<open>Evaluating runs on concrete inputs\<close>

lemmas run_defs = download_media_def log_def get_media_meta_def can_download_def
  download_item_def is_exist_def os_path_join_def begin_import_def process_messages_def
  py_max_def update_config_def main_def Let_def
  quiet_env_def failing_env_def photo_message_def plain_message_def world0_def config0_def

lemma failing_env_other_run:
  "download_media (failing_env OtherException) (photo_message 7) [''photo''] Map.empty world0
     = (7, \<lparr>FAILED_IDS = [7], DOWNLOADED_IDS = [],
            trace = [Attempt 7 0, Download 7 ''/app/photo/'' (Inl OtherException)]\<rparr>)"
  by (simp add: run_defs)

lemma failing_env_timeout_run:
  "download_media (failing_env TypeError) (photo_message 7) [''photo''] Map.empty world0
     = (7, \<lparr>FAILED_IDS = [7], DOWNLOADED_IDS = [],
            trace = [Attempt 7 0, Download 7 ''/app/photo/'' (Inl TypeError), Sleep 5,
              Attempt 7 1, Download 7 ''/app/photo/'' (Inl TypeError), Sleep 5,
              Attempt 7 2, Download 7 ''/app/photo/'' (Inl TypeError), Sleep 5]\<rparr>)"
  by (simp add: run_defs)

lemma failing_env_expired_run:
  "download_media (failing_env BadRequest) (photo_message 7) [''photo''] Map.empty world0
     = (7, \<lparr>FAILED_IDS = [7], DOWNLOADED_IDS = [],
            trace = [Attempt 7 0, Download 7 ''/app/photo/'' (Inl BadRequest), GetMessages [7],
              Attempt 7 1, Download 7 ''/app/photo/'' (Inl BadRequest), GetMessages [7],
              Attempt 7 2, Download 7 ''/app/photo/'' (Inl BadRequest), GetMessages [7]]\<rparr>)"
  by (simp add: run_defs)

lemma crowded_env_run:
  "download_media crowded_env (photo_message 7) [''photo''] Map.empty world0
     = (7, \<lparr>FAILED_IDS = [], DOWNLOADED_IDS = [7],
            trace = [Attempt 7 0,
              GetNextName ''/app/photo/'' (Inr ''/app/photo/-copy1''),
              Download 7 ''/app/photo/-copy1'' (Inr (Some ''/app/photo/-copy1'')),
              ManageDuplicate (Some ''/app/photo/-copy1'') (Inr (Some ''/app/photo/-copy1''))]\<rparr>)"
  by (simp add: run_defs crowded_env_def)

text \<open>
  An id can end in both lists: with a backlog that names message 1 twice, the first
  download succeeds and the second fails, and message 1 stays in the backlog.
\<close>

lemma overlap_reachable:
  "final_lists (main flaky_env (config0 100 [1, 1]) world0) = Inr ([1], [1], [1])"
  by (simp add: run_defs flaky_env_def final_lists_def downloads_def)

text \<open>
  The two lists are module-level and never cleared, so they survive from one call of
  \<open>main\<close> to the next: message 5 fails for good in a first run and is downloaded in a
  second run, which ends with 5 in both lists and in its backlog.
\<close>

lemma lists_survive_runs:
  "final_lists (then_main (main (lost_photo_env 5) (config0 0 []) world0)
       (quiet_env [photo_message 5]) (config0 0 []))
     = Inr ([5], [5], [5])"
  by (simp add: run_defs final_lists_def then_main_def lost_photo_env_def)

section \<open>Reconciling the backlog\<close>

text \<open>
  Claim C1, as amended. \<open>update_config\<close> sets the backlog to the previous backlog
  minus the ids in \<open>DOWNLOADED_IDS\<close>, united with the ids in \<open>FAILED_IDS\<close>, and writes
  it. The two lists are the module-level lists as they stand at the call, whatever put the
  ids there: the current run or an earlier run of the same process. Every id in
  \<open>FAILED_IDS\<close> is in the new backlog; an id in \<open>DOWNLOADED_IDS\<close> is absent from it
  provided it is not also in \<open>FAILED_IDS\<close>. \<open>main\<close> ends a run with this step.
\<close>

theorem update_config_backlog:
  "set (ids_to_retry (fst (update_config config w)))
     = (set (ids_to_retry config) - set (DOWNLOADED_IDS w)) \<union> set (FAILED_IDS w)
   \<and> (i \<in> set (DOWNLOADED_IDS w) \<and> i \<notin> set (FAILED_IDS w)
        \<longrightarrow> i \<notin> set (ids_to_retry (fst (update_config config w))))
   \<and> (i \<in> set (FAILED_IDS w) \<longrightarrow> i \<in> set (ids_to_retry (fst (update_config config w))))
   \<and> snd (update_config config w)
       = log (WriteConfig (last_read_message_id config)
                (ids_to_retry (fst (update_config config w)))) w
   \<and> (begin_import env config' 100 w' = Inr (config, w)
        \<longrightarrow> main env config' w' = Inr (update_config config w))"
  by (auto simp: update_config_def main_def Let_def)

theorem update_config_backlog_witness:
  "set (ids_to_retry (fst (update_config (config0 0 [3, 4, 4])
      \<lparr>FAILED_IDS = [9], DOWNLOADED_IDS = [3], trace = []\<rparr>))) = {4, 9}
   \<and> 3 \<notin> set (ids_to_retry (fst (update_config (config0 0 [3, 4, 4])
      \<lparr>FAILED_IDS = [9], DOWNLOADED_IDS = [3], trace = []\<rparr>)))
   \<and> 9 \<in> set (ids_to_retry (fst (update_config (config0 0 [3, 4, 4])
      \<lparr>FAILED_IDS = [9], DOWNLOADED_IDS = [3], trace = []\<rparr>)))"
proof -
  let ?w = "\<lparr>FAILED_IDS = [9], DOWNLOADED_IDS = [3], trace = []\<rparr>"
  let ?c = "config0 0 [3, 4, 4]"
  have a: "set (ids_to_retry (fst (update_config ?c ?w))) = {4, 9}"
    using update_config_backlog [of ?c ?w 3] by (auto simp: config0_def)
  have b: "3 \<notin> set (ids_to_retry (fst (update_config ?c ?w)))"
    using update_config_backlog [of ?c ?w 3] by simp
  have c: "9 \<in> set (ids_to_retry (fst (update_config ?c ?w)))"
    using update_config_backlog [of ?c ?w 9] by simp
  from a b c show ?thesis by blast
qed

text \<open>
  The claim as stated fails in two ways. When an id is in both lists, it is among the
  downloaded ids and still in the new backlog (message 1). And the lists are not those of
  the run: a first run in which message 5 fails for good leaves 5 in \<open>FAILED_IDS\<close>; a
  second run in the same process starts with an empty backlog, sees only message 9 and
  downloads it, so nothing fails in it, yet the backlog it writes is 5.
\<close>

theorem update_config_backlog_counterexample:
  "1 \<in> set (DOWNLOADED_IDS \<lparr>FAILED_IDS = [1], DOWNLOADED_IDS = [1], trace = []\<rparr>)
   \<and> 1 \<in> set (ids_to_retry (fst (update_config (config0 0 [])
        \<lparr>FAILED_IDS = [1], DOWNLOADED_IDS = [1], trace = []\<rparr>)))
   \<and> final_lists (main (lost_photo_env 5) (config0 0 []) world0) = Inr ([], [5], [5])
   \<and> ids_to_retry (config0 0 []) = []
   \<and> final_lists (then_main (main (lost_photo_env 5) (config0 0 []) world0)
         (quiet_env [photo_message 9]) (config0 0 []))
       = Inr ([9], [5], [5])"
  by (simp add: run_defs final_lists_def then_main_def lost_photo_env_def)

section \<open>The watermark of a batch\<close>

lemma retry_loop_returns_id:
  "\<forall>h i. message_id (client_get_messages env h i) = i \<Longrightarrow>
     fst (retry_loop env rs m mts ffs w) = message_id m"
proof (induction rs arbitrary: m w)
  case Nil
  then show ?case by simp
next
  case (Cons r rs)
  show ?case
    using Cons.prems Cons.IH
    by (simp add: Let_def split: prod.splits option.splits)
qed

lemma download_media_returns_id:
  "\<forall>h i. message_id (client_get_messages env h i) = i \<Longrightarrow>
     fst (download_media env m mts ffs w) = message_id m"
  unfolding download_media_def by (rule retry_loop_returns_id)

lemma gather_ids:
  "\<forall>h i. message_id (client_get_messages env h i) = i \<Longrightarrow>
     fst (gather env ms mts ffs w) = map message_id ms"
proof (induction ms arbitrary: w)
  case Nil
  then show ?case by simp
next
  case (Cons m ms)
  obtain i w' where d: "download_media env m mts ffs w = (i, w')"
    by (cases "download_media env m mts ffs w")
  obtain js w'' where g: "gather env ms mts ffs w' = (js, w'')"
    by (cases "gather env ms mts ffs w'")
  have "i = message_id m"
    using download_media_returns_id [OF Cons.prems, of m mts ffs w] d by simp
  moreover have "js = map message_id ms"
    using Cons.IH [OF Cons.prems, of w'] g by simp
  ultimately show ?case using d g by simp
qed

lemma fold_max_Max: "fold max xs (x::int) = Max (set (x # xs))"
proof (induction xs arbitrary: x)
  case Nil
  then show ?case by simp
next
  case (Cons y ys)
  have "fold max (y # ys) x = Max (set (max y x # ys))"
    using Cons.IH [of "max y x"] by simp
  also have "\<dots> = Max (set (x # y # ys))"
    by (cases ys) (auto simp: max.commute max.left_commute max.assoc)
  finally show ?case .
qed

lemma py_max_Max: "xs \<noteq> [] \<Longrightarrow> py_max xs = Inr (Max (set xs))"
  by (cases xs) (simp_all add: py_max_def fold_max_Max)

text \<open>
  Claim C4. Provided the message source answers a fetch by id with a message of that
  id, \<open>download_media\<close> returns the id of its message in every environment, that is,
  whatever the downloads do, and \<open>process_messages\<close> on a non-empty batch returns the
  greatest message id of the batch.
\<close>

theorem process_messages_returns_max:
  assumes "\<forall>h i. message_id (client_get_messages env h i) = i"
    and "messages \<noteq> []"
  shows "fst (process_messages env messages mts ffs w) = Inr (Max (message_id ` set messages))
    \<and> (\<forall>m w'. fst (download_media env m mts ffs w') = message_id m)"
proof -
  let ?w = "log (ProcessMessages (map message_id messages)) w"
  obtain js w' where g: "gather env messages mts ffs ?w = (js, w')"
    by (cases "gather env messages mts ffs ?w")
  have js: "js = map message_id messages"
    using gather_ids [OF assms(1), of messages mts ffs ?w] g by simp
  have "fst (process_messages env messages mts ffs w) = py_max js"
    using g by (simp add: process_messages_def)
  also have "\<dots> = Inr (Max (set js))"
    using assms(2) js by (simp add: py_max_Max)
  finally have "fst (process_messages env messages mts ffs w)
      = Inr (Max (message_id ` set messages))"
    using js by simp
  then show ?thesis
    using download_media_returns_id [OF assms(1)] by simp
qed

text \<open>A batch whose photos all fail for good and whose middle message has no media.\<close>

theorem process_messages_returns_max_witness:
  "fst (process_messages (failing_env OtherException)
     [photo_message 3, plain_message 9, photo_message 5] [''photo''] Map.empty world0) = Inr 9"
proof -
  have c: "\<forall>h i. message_id (client_get_messages (failing_env OtherException) h i) = i"
    by (simp add: failing_env_def quiet_env_def photo_message_def)
  have n: "[photo_message 3, plain_message 9, photo_message 5] \<noteq> []" by simp
  show ?thesis
    using process_messages_returns_max [OF c n, of "[''photo'']" Map.empty world0]
    by (simp add: photo_message_def plain_message_def)
qed

section \<open>The retry loop\<close>

lemma body_events_Nil: "body_events r n []"
  by (simp add: body_events_def attempts_def downloads_def)

lemma body_events_mono: "body_events r n evs \<Longrightarrow> n \<le> k \<Longrightarrow> body_events r k evs"
  by (simp add: body_events_def)

lemma in_butlast_or_last: "e \<in> set evs \<Longrightarrow> e \<in> set (butlast evs) \<or> e = last evs"
  by (induction evs) (auto split: if_splits)

lemma no_fatal_all:
  assumes "\<forall>e \<in> set (butlast evs). \<not> fatal e" and "evs \<noteq> [] \<Longrightarrow> \<not> fatal (last evs)"
  shows "\<forall>e \<in> set evs. \<not> fatal e"
proof
  fix e
  assume e: "e \<in> set evs"
  then have "evs \<noteq> []" by auto
  with assms(2) have "\<not> fatal (last evs)" by simp
  with assms(1) in_butlast_or_last [OF e] show "\<not> fatal e" by blast
qed

lemma body_events_no_fatal:
  "body_events r n evs \<Longrightarrow> \<not> unclassified r \<Longrightarrow> \<forall>e \<in> set evs. \<not> fatal e"
  by (rule no_fatal_all) (simp_all add: body_events_def)

lemma body_events_append:
  assumes "body_events None n evs1" and "body_events r k evs2"
  shows "body_events r (n + k) (evs1 @ evs2)"
proof -
  have nf1: "\<forall>e \<in> set evs1. \<not> fatal e"
    using assms(1) by (rule body_events_no_fatal) (simp add: unclassified_def)
  have b: "\<forall>e \<in> set (butlast (evs1 @ evs2)). \<not> fatal e"
    using nf1 assms(2) by (auto simp: body_events_def butlast_append dest: in_set_butlastD)
  have l: "evs1 @ evs2 \<noteq> [] \<and> fatal (last (evs1 @ evs2)) \<longrightarrow> unclassified r"
    using nf1 assms(2) by (cases "evs2 = []") (auto simp: body_events_def)
  have "attempts (evs1 @ evs2) = 0" "downloads (evs1 @ evs2) \<le> n + k"
    using assms by (auto simp: body_events_def attempts_def downloads_def)
  with b l show ?thesis by (simp add: body_events_def)
qed

lemma download_item_events:
  "\<exists>evs. trace (snd (download_item env m f w)) = trace w @ evs
     \<and> body_events (fst (download_item env m f w)) 1 evs"
proof (cases "is_exist env (trace w) f")
  case False
  show ?thesis
  proof (cases "client_download_media env (trace w) m f")
    case (Inl e)
    with False show ?thesis
      by (simp add: download_item_def Let_def log_def body_events_def attempts_def
          downloads_def unclassified_def)
  next
    case (Inr p)
    with False show ?thesis
      by (simp add: download_item_def Let_def log_def body_events_def attempts_def
          downloads_def unclassified_def)
  qed
next
  case True
  show ?thesis
  proof (cases "get_next_name env (trace w) f")
    case (Inl e)
    with True show ?thesis
      by (simp add: download_item_def Let_def log_def body_events_def attempts_def
          downloads_def unclassified_def)
  next
    case n: (Inr f')
    show ?thesis
    proof (cases "client_download_media env (trace w @ [GetNextName f (Inr f')]) m f'")
      case (Inl e)
      with True n show ?thesis
        by (simp add: download_item_def Let_def log_def body_events_def attempts_def
            downloads_def unclassified_def)
    next
      case r: (Inr p)
      show ?thesis
      proof (cases "manage_duplicate_file env
          (trace w @ [GetNextName f (Inr f'), Download (message_id m) f' (Inr p)]) p")
        case (Inl e)
        with True n r show ?thesis
          by (simp add: download_item_def Let_def log_def body_events_def attempts_def
              downloads_def unclassified_def)
      next
        case (Inr p')
        with True n r show ?thesis
          by (simp add: download_item_def Let_def log_def body_events_def attempts_def
              downloads_def unclassified_def)
      qed
    qed
  qed
qed

lemma for_media_types_events:
  "\<exists>evs. trace (snd (for_media_types env m ts ffs w)) = trace w @ evs
     \<and> body_events (fst (for_media_types env m ts ffs w)) (length ts) evs"
proof (induction ts arbitrary: w)
  case Nil
  show ?case by (simp add: body_events_Nil)
next
  case (Cons t ts)
  let ?P = "\<lambda>x. \<exists>evs. trace (snd x) = trace w @ evs \<and> body_events (fst x) (Suc (length ts)) evs"
  have skip: "?P (for_media_types env m ts ffs w)"
    using Cons.IH [of w] body_events_mono [of _ "length ts" _ "Suc (length ts)"] by auto
  have here: "?P (Some e, w)" for e
    by (simp add: body_events_Nil)
  have dl: "?P (case download_item env m f w of
                  (Some e, w') \<Rightarrow> (Some e, w')
                | (None, w') \<Rightarrow> for_media_types env m ts ffs w')" for f
  proof -
    obtain r w1 where d: "download_item env m f w = (r, w1)"
      by (cases "download_item env m f w")
    obtain evs1 where e1: "trace w1 = trace w @ evs1" "body_events r 1 evs1"
      using download_item_events [of env m f w] d by auto
    show ?thesis
    proof (cases r)
      case (Some e)
      with d e1 body_events_mono [of r 1 evs1 "Suc (length ts)"] show ?thesis by auto
    next
      case None
      obtain evs2 where e2: "trace (snd (for_media_types env m ts ffs w1)) = trace w1 @ evs2"
        "body_events (fst (for_media_types env m ts ffs w1)) (length ts) evs2"
        using Cons.IH [of w1] by auto
      have "body_events (fst (for_media_types env m ts ffs w1)) (1 + length ts) (evs1 @ evs2)"
        using e1(2) e2(2) None by (intro body_events_append) simp_all
      moreover have "trace (snd (for_media_types env m ts ffs w1)) = trace w @ (evs1 @ evs2)"
        using e1(1) e2(1) by simp
      ultimately show ?thesis
        using d None by (intro exI [of _ "evs1 @ evs2"]) simp
    qed
  qed
  show ?case
  proof (cases "getattr m t")
    case None
    with skip show ?thesis by simp
  next
    case (Some mo)
    show ?thesis
    proof (cases "get_media_meta (THIS_DIR env) mo t")
      case (Inl e)
      with Some here [of e] show ?thesis by simp
    next
      case (Inr meta)
      obtain fn ff where meta: "meta = (fn, ff)" by (cases meta)
      show ?thesis
      proof (cases "can_download t ffs ff")
        case (Inl e)
        with Some Inr meta here [of e] show ?thesis by simp
      next
        case c: (Inr b)
        show ?thesis
        proof (cases b)
          case True
          with Some Inr meta c dl [of fn] show ?thesis by simp
        next
          case False
          with Some Inr meta c skip show ?thesis by simp
        qed
      qed
    qed
  qed
qed

lemma loop_events_no_fatal:
  "\<forall>e \<in> set pre. \<not> fatal e \<Longrightarrow> attempts pre \<le> a \<Longrightarrow> downloads pre \<le> d
     \<Longrightarrow> loop_events failed a d pre"
  by (auto simp: loop_events_def dest: in_set_butlastD)

lemma loop_events_prefix:
  assumes "\<forall>e \<in> set pre. \<not> fatal e" and "loop_events failed a d evs" and "evs \<noteq> []"
  shows "loop_events failed (attempts pre + a) (downloads pre + d) (pre @ evs)"
  using assms
  by (auto simp: loop_events_def attempts_def downloads_def butlast_append)

lemma loop_events_fatal_end:
  assumes "body_events r n evs" and "attempts pre \<le> a" and "\<forall>e \<in> set pre. \<not> fatal e"
  shows "loop_events True a (downloads pre + n) (pre @ evs)"
proof -
  have "\<forall>e \<in> set (butlast (pre @ evs)). \<not> fatal e"
    using assms(1,3) by (auto simp: body_events_def butlast_append dest: in_set_butlastD)
  moreover have "attempts (pre @ evs) \<le> a" "downloads (pre @ evs) \<le> downloads pre + n"
    using assms(1,2) by (auto simp: body_events_def attempts_def downloads_def)
  ultimately show ?thesis by (simp add: loop_events_def)
qed

text \<open>
  After a classified exception the loop goes on: the events of the failed pass, then
  the refetch or the sleep \<open>g\<close>, then the events of the remaining passes.
\<close>

lemma loop_events_retry:
  assumes pass: "body_events r n evs1" "\<not> unclassified r"
    and g: "\<not> fatal g" "\<not> is_attempt g" "\<not> is_download g"
    and rest: "loop_events failed k (k * n) evs2"
  shows "loop_events failed (Suc k) (Suc k * n) (([Attempt i j] @ evs1 @ [g]) @ evs2)"
proof -
  let ?pre = "[Attempt i j] @ evs1 @ [g]"
  have nf: "\<forall>e \<in> set ?pre. \<not> fatal e"
    using body_events_no_fatal [OF pass] g(1) by simp
  have c: "attempts ?pre = 1" "downloads ?pre \<le> n"
    using pass(1) g(2,3) by (simp_all add: body_events_def attempts_def downloads_def)
  show ?thesis
  proof (cases "evs2 = []")
    case True
    with nf c show ?thesis by (intro loop_events_no_fatal) simp_all
  next
    case False
    have "loop_events failed (attempts ?pre + k) (downloads ?pre + k * n) (?pre @ evs2)"
      using nf rest False by (rule loop_events_prefix)
    with c show ?thesis by (simp add: loop_events_def)
  qed
qed

lemma retry_loop_events:
  "\<exists>evs. trace (snd (retry_loop env rs m mts ffs w)) = trace w @ evs
     \<and> loop_events (fst (retry_loop env rs m mts ffs w)
                      \<in> set (FAILED_IDS (snd (retry_loop env rs m mts ffs w))))
          (length rs) (length rs * length mts) evs"
proof (induction rs arbitrary: m w)
  case Nil
  show ?case by (simp add: loop_events_def attempts_def downloads_def)
next
  case (Cons r rs)
  let ?A = "Attempt (message_id m) r"
  let ?w0 = "log ?A w"
  let ?res = "retry_loop env (r # rs) m mts ffs w"
  have A: "attempts [?A] = 1" "downloads [?A] = 0" "\<not> fatal ?A"
    by (simp_all add: attempts_def downloads_def)
  show ?case
  proof (cases "media m = None")
    case True
    have "loop_events (fst ?res \<in> set (FAILED_IDS (snd ?res))) (length (r # rs))
        (length (r # rs) * length mts) [?A]"
      using A by (intro loop_events_no_fatal) simp_all
    moreover have "trace (snd ?res) = trace w @ [?A]"
      using True by (simp add: log_def)
    ultimately show ?thesis by blast
  next
    case False
    then obtain mk where mk: "media m = Some mk" by auto
    obtain res w1 where f: "for_media_types env m mts ffs ?w0 = (res, w1)"
      by (cases "for_media_types env m mts ffs ?w0")
    obtain evs1 where e1: "trace w1 = trace w @ [?A] @ evs1" "body_events res (length mts) evs1"
      using for_media_types_events [of env m mts ffs ?w0] f by (auto simp: log_def)
    have a1: "attempts ([?A] @ evs1) = 1" "downloads ([?A] @ evs1) \<le> length mts"
      using e1(2) by (simp_all add: body_events_def attempts_def downloads_def)
    consider (finished) "res = None"
      | (expired) "res = Some BadRequest"
      | (timeout) "res = Some TypeError"
      | (other) "unclassified res"
      by (cases res) (auto simp: unclassified_def)
    then show ?thesis
    proof cases
      case finished
      have nf: "\<forall>e \<in> set ([?A] @ evs1). \<not> fatal e"
        using body_events_no_fatal [OF e1(2)] finished by (simp add: unclassified_def)
      have "loop_events (fst ?res \<in> set (FAILED_IDS (snd ?res))) (length (r # rs))
          (length (r # rs) * length mts) ([?A] @ evs1)"
        using nf a1 by (intro loop_events_no_fatal) simp_all
      moreover have "trace (snd ?res) = trace w @ ([?A] @ evs1)"
        using mk f finished e1(1) by (simp add: Let_def)
      ultimately show ?thesis by blast
    next
      case other
      then obtain e where e: "res = Some e" "e \<noteq> BadRequest" "e \<noteq> TypeError"
        by (auto simp: unclassified_def)
      have r: "?res = (message_id m, w1\<lparr>FAILED_IDS := FAILED_IDS w1 @ [message_id m]\<rparr>)"
        using mk f e by (simp add: Let_def)
      have "loop_events True (length (r # rs)) (downloads [?A] + length mts) ([?A] @ evs1)"
        using e1(2) A by (intro loop_events_fatal_end) simp_all
      then have "loop_events (fst ?res \<in> set (FAILED_IDS (snd ?res))) (length (r # rs))
          (length (r # rs) * length mts) ([?A] @ evs1)"
        using r A by (simp add: loop_events_def)
      moreover have "trace (snd ?res) = trace w @ ([?A] @ evs1)"
        using r e1(1) by simp
      ultimately show ?thesis by blast
    next
      case expired
      let ?G = "GetMessages [message_id m]"
      let ?m' = "client_get_messages env (trace w1) (message_id m)"
      let ?w2 = "log ?G w1"
      let ?w3 = "if r = 2 then ?w2\<lparr>FAILED_IDS := FAILED_IDS ?w2 @ [message_id ?m']\<rparr> else ?w2"
      have r: "?res = retry_loop env rs ?m' mts ffs ?w3"
        using mk f expired by (simp add: Let_def)
      have t3: "trace ?w3 = trace w @ ([?A] @ evs1 @ [?G])"
        using e1(1) by (simp add: log_def)
      obtain evs2 where e2: "trace (snd ?res) = trace ?w3 @ evs2"
        "loop_events (fst ?res \<in> set (FAILED_IDS (snd ?res))) (length rs)
           (length rs * length mts) evs2"
        using Cons.IH [of ?m' ?w3] r by auto
      have "loop_events (fst ?res \<in> set (FAILED_IDS (snd ?res))) (Suc (length rs))
          (Suc (length rs) * length mts) (([?A] @ evs1 @ [?G]) @ evs2)"
        using e1(2) _ _ _ _ e2(2) by (rule loop_events_retry) (simp_all add: expired unclassified_def)
      moreover have "trace (snd ?res) = trace w @ (([?A] @ evs1 @ [?G]) @ evs2)"
        using e2(1) t3 by simp
      ultimately show ?thesis by auto
    next
      case timeout
      let ?G = "Sleep 5"
      let ?w2 = "log ?G w1"
      let ?w3 = "if r = 2 then ?w2\<lparr>FAILED_IDS := FAILED_IDS ?w2 @ [message_id m]\<rparr> else ?w2"
      have r: "?res = retry_loop env rs m mts ffs ?w3"
        using mk f timeout by (simp add: Let_def)
      have t3: "trace ?w3 = trace w @ ([?A] @ evs1 @ [?G])"
        using e1(1) by (simp add: log_def)
      obtain evs2 where e2: "trace (snd ?res) = trace ?w3 @ evs2"
        "loop_events (fst ?res \<in> set (FAILED_IDS (snd ?res))) (length rs)
           (length rs * length mts) evs2"
        using Cons.IH [of m ?w3] r by auto
      have "loop_events (fst ?res \<in> set (FAILED_IDS (snd ?res))) (Suc (length rs))
          (Suc (length rs) * length mts) (([?A] @ evs1 @ [?G]) @ evs2)"
        using e1(2) _ _ _ _ e2(2) by (rule loop_events_retry) (simp_all add: timeout unclassified_def)
      moreover have "trace (snd ?res) = trace w @ (([?A] @ evs1 @ [?G]) @ evs2)"
        using e2(1) t3 by simp
      ultimately show ?thesis by auto
    qed
  qed
qed

text \<open>
  Claim C5. In every environment, so for every sequence of results and exceptions of
  the download primitive, one call of \<open>download_media\<close> only appends to the trace, and
  what it appends holds at most 3 passes through the \<open>try\<close> body (attempts) and at most 3
  calls of the download primitive per requested media type. A download (or a call of
  \<open>get_next_name\<close> or \<open>manage_duplicate_file\<close>) that raised an exception other than
  \<open>BadRequest\<close> and \<open>TypeError\<close> can only be the last event of the call: nothing is
  attempted after it, and the returned message id is then in \<open>FAILED_IDS\<close>.
\<close>

theorem download_media_retry_bound:
  "\<exists>evs. trace (snd (download_media env m mts ffs w)) = trace w @ evs
     \<and> attempts evs \<le> 3
     \<and> downloads evs \<le> 3 * length mts
     \<and> (\<forall>e \<in> set (butlast evs). \<not> fatal e)
     \<and> (evs \<noteq> [] \<and> fatal (last evs) \<longrightarrow>
          fst (download_media env m mts ffs w)
            \<in> set (FAILED_IDS (snd (download_media env m mts ffs w))))"
proof -
  obtain evs where e: "trace (snd (retry_loop env [0, 1, 2] m mts ffs w)) = trace w @ evs"
    "loop_events (fst (retry_loop env [0, 1, 2] m mts ffs w)
                    \<in> set (FAILED_IDS (snd (retry_loop env [0, 1, 2] m mts ffs w))))
       (length [0, 1, 2 :: nat]) (length [0, 1, 2 :: nat] * length mts) evs"
    using retry_loop_events [of env "[0, 1, 2]" m mts ffs w] by blast
  have "attempts evs \<le> 3" "downloads evs \<le> 3 * length mts"
    using e(2) by (simp_all add: loop_events_def)
  moreover have "\<forall>e \<in> set (butlast evs). \<not> fatal e"
    using e(2) by (simp add: loop_events_def)
  moreover have "evs \<noteq> [] \<and> fatal (last evs) \<longrightarrow>
      fst (retry_loop env [0, 1, 2] m mts ffs w)
        \<in> set (FAILED_IDS (snd (retry_loop env [0, 1, 2] m mts ffs w)))"
    using e(2) by (simp add: loop_events_def)
  ultimately show ?thesis
    unfolding download_media_def using e(1) by blast
qed

text \<open>
  A photo whose download raises an unclassified exception: one attempt, then the id is
  failed. A photo whose download always times out: three attempts.
\<close>

theorem download_media_retry_bound_witness:
  "trace (snd (download_media (failing_env OtherException) (photo_message 7) [''photo'']
       Map.empty world0))
     = [Attempt 7 0, Download 7 ''/app/photo/'' (Inl OtherException)]
   \<and> fst (download_media (failing_env OtherException) (photo_message 7) [''photo'']
       Map.empty world0)
     \<in> set (FAILED_IDS (snd (download_media (failing_env OtherException) (photo_message 7)
          [''photo''] Map.empty world0)))
   \<and> attempts (trace (snd (download_media (failing_env TypeError) (photo_message 7) [''photo'']
          Map.empty world0))) \<le> 3"
proof -
  let ?r = "download_media (failing_env OtherException) (photo_message 7) [''photo'']
    Map.empty world0"
  let ?s = "download_media (failing_env TypeError) (photo_message 7) [''photo'']
    Map.empty world0"
  have t: "trace (snd ?r) = [Attempt 7 0, Download 7 ''/app/photo/'' (Inl OtherException)]"
    by (simp add: failing_env_other_run)
  obtain evs where e: "trace (snd ?r) = trace world0 @ evs"
    "evs \<noteq> [] \<and> fatal (last evs) \<longrightarrow> fst ?r \<in> set (FAILED_IDS (snd ?r))"
    using download_media_retry_bound [of "failing_env OtherException" "photo_message 7"
        "[''photo'']" Map.empty world0] by blast
  have "evs = [Attempt 7 0, Download 7 ''/app/photo/'' (Inl OtherException)]"
    using e(1) t by (simp add: world0_def)
  with e(2) have f: "fst ?r \<in> set (FAILED_IDS (snd ?r))" by simp
  obtain evs' where e': "trace (snd ?s) = trace world0 @ evs'" "attempts evs' \<le> 3"
    using download_media_retry_bound [of "failing_env TypeError" "photo_message 7"
        "[''photo'']" Map.empty world0] by blast
  then have "attempts (trace (snd ?s)) \<le> 3" by (simp add: world0_def)
  with t f show ?thesis by simp
qed

section \<open>Messages without media\<close>

text \<open>
  Claim C7, as amended. For a message that carries no media, \<open>download_media\<close>
  returns the id of the message on its first pass, calls nothing outside, and records the
  id in neither list: \<open>DOWNLOADED_IDS\<close> and \<open>FAILED_IDS\<close> are as before.
\<close>

theorem download_media_no_media:
  "media m = None \<Longrightarrow>
     download_media env m mts ffs w = (message_id m, log (Attempt (message_id m) 0) w)
     \<and> DOWNLOADED_IDS (snd (download_media env m mts ffs w)) = DOWNLOADED_IDS w
     \<and> FAILED_IDS (snd (download_media env m mts ffs w)) = FAILED_IDS w"
  by (simp add: download_media_def log_def)

theorem download_media_no_media_witness:
  "media (plain_message 7) = None
   \<and> download_media (quiet_env []) (plain_message 7) [''photo''] Map.empty world0
       = (7, \<lparr>FAILED_IDS = [], DOWNLOADED_IDS = [], trace = [Attempt 7 0]\<rparr>)"
proof -
  have h: "media (plain_message 7) = None" by (simp add: plain_message_def)
  show ?thesis
    using h download_media_no_media [OF h, of "quiet_env []" "[''photo'']" Map.empty world0]
    by (simp add: plain_message_def world0_def log_def)
qed

text \<open>The id of a message without media is not in the succeeded list after the call.\<close>

theorem download_media_no_media_counterexample:
  "count_list (DOWNLOADED_IDS (snd (download_media (quiet_env []) (plain_message 7) [''photo'']
      Map.empty world0))) 7 = 0"
  by (simp add: run_defs)

section \<open>The dedup step\<close>

text \<open>
  Claim C8, as amended. When the destination exists already, the download goes to the
  name given by \<open>get_next_name\<close>, and if the download primitive returns,
  \<open>manage_duplicate_file\<close> is called on the returned path directly after it; the id is
  appended to \<open>DOWNLOADED_IDS\<close> only once that call has returned. When the destination
  does not exist and the download primitive returns, the id is appended to
  \<open>DOWNLOADED_IDS\<close> with no call of \<open>manage_duplicate_file\<close>.
\<close>

theorem download_item_dedup:
  "(is_exist env (trace w) f \<and> get_next_name env (trace w) f = Inr f'
      \<and> client_download_media env (trace w @ [GetNextName f (Inr f')]) m f' = Inr p
      \<and> manage_duplicate_file env
           (trace w @ [GetNextName f (Inr f'), Download (message_id m) f' (Inr p)]) p = d
    \<longrightarrow> trace (snd (download_item env m f w))
          = trace w @ [GetNextName f (Inr f'), Download (message_id m) f' (Inr p),
                       ManageDuplicate p d]
      \<and> DOWNLOADED_IDS (snd (download_item env m f w))
          = (case d of Inl e \<Rightarrow> DOWNLOADED_IDS w | Inr p' \<Rightarrow> DOWNLOADED_IDS w @ [message_id m])
      \<and> fst (download_item env m f w) = (case d of Inl e \<Rightarrow> Some e | Inr p' \<Rightarrow> None))
   \<and> (\<not> is_exist env (trace w) f \<and> client_download_media env (trace w) m f = Inr p
    \<longrightarrow> download_item env m f w
          = (None, w\<lparr>trace := trace w @ [Download (message_id m) f (Inr p)],
                      DOWNLOADED_IDS := DOWNLOADED_IDS w @ [message_id m]\<rparr>))"
  by (cases d) (simp_all add: download_item_def Let_def log_def)

theorem download_item_dedup_witness:
  "trace (snd (download_item crowded_env (photo_message 7) ''/app/photo/a.jpg'' world0))
     = [GetNextName ''/app/photo/a.jpg'' (Inr ''/app/photo/a.jpg-copy1''),
        Download 7 ''/app/photo/a.jpg-copy1'' (Inr (Some ''/app/photo/a.jpg-copy1'')),
        ManageDuplicate (Some ''/app/photo/a.jpg-copy1'') (Inr (Some ''/app/photo/a.jpg-copy1''))]
   \<and> DOWNLOADED_IDS (snd (download_item crowded_env (photo_message 7) ''/app/photo/a.jpg'' world0))
     = [7]
   \<and> download_item (quiet_env []) (photo_message 7) ''/app/photo/a.jpg'' world0
     = (None, \<lparr>FAILED_IDS = [], DOWNLOADED_IDS = [7],
          trace = [Download 7 ''/app/photo/a.jpg'' (Inr (Some ''/app/photo/a.jpg''))]\<rparr>)"
proof -
  have a: "trace (snd (download_item crowded_env (photo_message 7) ''/app/photo/a.jpg'' world0))
      = [GetNextName ''/app/photo/a.jpg'' (Inr ''/app/photo/a.jpg-copy1''),
         Download 7 ''/app/photo/a.jpg-copy1'' (Inr (Some ''/app/photo/a.jpg-copy1'')),
         ManageDuplicate (Some ''/app/photo/a.jpg-copy1'') (Inr (Some ''/app/photo/a.jpg-copy1''))]
     \<and> DOWNLOADED_IDS (snd (download_item crowded_env (photo_message 7) ''/app/photo/a.jpg'' world0))
      = [7]"
    using download_item_dedup [of crowded_env world0 "''/app/photo/a.jpg''"
        "''/app/photo/a.jpg-copy1''" "photo_message 7" "Some ''/app/photo/a.jpg-copy1''"
        "Inr (Some ''/app/photo/a.jpg-copy1'')"]
    by (simp add: crowded_env_def quiet_env_def is_exist_def world0_def photo_message_def)
  have b: "download_item (quiet_env []) (photo_message 7) ''/app/photo/a.jpg'' world0
      = (None, \<lparr>FAILED_IDS = [], DOWNLOADED_IDS = [7],
           trace = [Download 7 ''/app/photo/a.jpg'' (Inr (Some ''/app/photo/a.jpg''))]\<rparr>)"
    using download_item_dedup [of "quiet_env []" world0 "''/app/photo/a.jpg''"
        "''/app/photo/a.jpg''" "photo_message 7" "Some ''/app/photo/a.jpg''" "Inl KeyError"]
    by (simp add: quiet_env_def is_exist_def world0_def photo_message_def)
  from a b show ?thesis by blast
qed

text \<open>
  A download to a fresh name succeeds and the id is recorded as downloaded, yet
  \<open>manage_duplicate_file\<close> is never called.
\<close>

theorem download_media_no_dedup_counterexample:
  "download_media (quiet_env []) (photo_message 7) [''photo''] Map.empty world0
     = (7, \<lparr>FAILED_IDS = [], DOWNLOADED_IDS = [7],
            trace = [Attempt 7 0, Download 7 ''/app/photo/'' (Inr (Some ''/app/photo/''))]\<rparr>)"
  by (simp add: run_defs)

section \<open>Pagination\<close>

text \<open>
  Claim C3 does not hold of the code. With \<open>pagination_limit = 2\<close>, an empty backlog
  and the history 1, ..., 7, the first batch has 2 messages but the second, which is not
  the final one, has 3: after a dispatch \<open>pagination_count\<close> restarts at 0 although the
  list already holds the triggering message. The position written after each dispatch is
  the returned maximum. With a backlog of 3 ids and the same limit the counter starts
  above the limit, never equals it, and the whole run is one batch of 6.
\<close>

theorem begin_import_batch_sizes:
  "pagination_trace (begin_import (quiet_env (map plain_message [1, 2, 3, 4, 5, 6, 7]))
       (config0 0 []) 2 world0)
     = Inr [ProcessMessages [1, 2], WriteConfig 2 [],
            ProcessMessages [3, 4, 5], WriteConfig 5 [],
            ProcessMessages [6, 7]]
   \<and> pagination_trace (begin_import (quiet_env (map plain_message [101, 102, 103]))
       (config0 100 [42, 43, 44]) 2 world0)
     = Inr [ProcessMessages [42, 43, 44, 101, 102, 103]]"
  by (simp add: run_defs pagination_trace_def)


end
